theory Spec2Isabelle
  imports Main "HOL-Library.Sublist"
begin

section \<open>Configuration objects\<close>

text \<open>
  The options object of the README. A key that may be left out of the JavaScript
  object (reading it gives \<open>undefined\<close>) is an \<open>option\<close>; \<open>name\<close>, \<open>root\<close> and
  \<open>bundles\<close> are always given.
\<close>

record RunConfig =
  port :: "nat option"
  host :: "string option"
  https :: "bool option"
  routes :: "(string \<times> string) list option"
  environments :: "(string \<times> (string \<times> string) list) list option"
  customHeaders :: "(string \<times> string) list option"

record BundleConfig =
  name :: string
  dependencies :: "string list option"
  root :: string
  angular :: "bool option"
  library :: "bool option"
  minify :: "bool option"
  beforeBuild :: "string list option"
  assetFolders :: "string list option"
  globals :: "(string \<times> string) list option"
  run :: "RunConfig option"

record GlobalConfig =
  minify :: "bool option"
  beforeClean :: "string list option"
  bundles :: "BundleConfig list"

section \<open>Tasks handed to gulp\<close>

text \<open>
  The function of a task only calls a collaborator (\<open>templates\<close>, \<open>images\<close>, \<open>styles\<close>,
  \<open>code\<close>, \<open>karma\<close>, \<open>gulp.src\<close>/\<open>gulp.dest\<close>); an \<open>action\<close> records which one and the
  arguments it is called with.
\<close>

datatype action =
    TemplatesPreCache "string list" string
      \<comment> \<open>\<open>templates.preCache(globs, bundleName)\<close>\<close>
  | ImagesPreCache "string list" string
      \<comment> \<open>\<open>images.preCache(globs, bundleName)\<close>\<close>
  | CopyAssets "string list" string string
      \<comment> \<open>\<open>gulp.src(globs, { base }).pipe(gulp.dest(dest))\<close>\<close>
  | StylesCompile string string string BundleConfig
      \<comment> \<open>\<open>styles.compile(entry, partials, outDir, bundle)\<close>\<close>
  | CodeVerify "string list"
      \<comment> \<open>\<open>code.verify(globs)\<close>\<close>
  | CodeCompile string string bool "bool option" "(string \<times> string) list option"
      \<comment> \<open>\<open>code.compile(entry, outFile, minify, library, globals)\<close>\<close>
  | CopyRootFiles "string list" string
      \<comment> \<open>\<open>gulp.src(globs)\<close>, directories ignored, piped to \<open>gulp.dest(dest)\<close>\<close>
  | SpecInject string string string
      \<comment> \<open>\<open>spec.ts\<close>, the glob of the spec files injected into it, the destination\<close>
  | KarmaStart string "string list" string string "bool option"
      \<comment> \<open>\<open>new karma.Server({configFile, browsers, files: [js, {pattern: map}], singleRun})\<close>;
          the last argument is \<open>None\<close> when the key \<open>singleRun\<close> is not passed\<close>

record task =
  task_name :: string
  task_deps :: "string list"
  task_action :: "action option"

text \<open>
  The state \<open>generate\<close> works on: the module variable \<open>styleTasks\<close>, the calls of
  \<open>gulp.task\<close> made so far (oldest first) and the calls of \<open>run.generate\<close>.
\<close>

record state =
  styleTasks :: "string list"
  gulp_tasks :: "task list"
  run_generated :: "(BundleConfig \<times> GlobalConfig) list"

datatype error = TypeError string
  \<comment> \<open>reading the named property of \<open>undefined\<close>\<close>

datatype outcome = Completed state | Thrown error state

text \<open>
  The two calls into the file system, \<open>fs.existsSync(path)\<close> and
  \<open>glob.sync(pattern, { ignore })\<close>, are parameters of the model.
\<close>

record fsys =
  existsSync :: "string \<Rightarrow> bool"
  globSync :: "string \<Rightarrow> string list \<Rightarrow> string list"

section \<open>Library functions the module calls\<close>

text \<open>\<open>gulp.task(name, deps, fn)\<close>; a call without \<open>deps\<close> registers the empty list.\<close>

definition gulp_task :: "string \<Rightarrow> string list \<Rightarrow> action option \<Rightarrow> state \<Rightarrow> state" where
  "gulp_task n deps fn st =
     st\<lparr>gulp_tasks := gulp_tasks st @ [\<lparr>task_name = n, task_deps = deps, task_action = fn\<rparr>]\<rparr>"

text \<open>\<open>_.map\<close> and \<open>_.forEach\<close> treat \<open>undefined\<close> as the empty collection.\<close>

definition lodash_values :: "'a list option \<Rightarrow> 'a list" where
  "lodash_values xs = (case xs of None \<Rightarrow> [] | Some ys \<Rightarrow> ys)"

definition lodash_map :: "'a list option \<Rightarrow> ('a \<Rightarrow> 'b) \<Rightarrow> 'b list" where
  "lodash_map xs f = map f (lodash_values xs)"

text \<open>
  \<open>_.intersection(xs, ys)\<close>: the values of \<open>xs\<close> that \<open>ys\<close> includes, each once, in the
  order of their first occurrence in \<open>xs\<close>.
\<close>

fun lodash_intersection :: "'a list \<Rightarrow> 'a list \<Rightarrow> 'a list" where
  "lodash_intersection [] ys = []"
| "lodash_intersection (x # xs) ys =
     (if x \<in> set ys then x # lodash_intersection (filter (\<lambda>y. y \<noteq> x) xs) ys
      else lodash_intersection xs ys)"

text \<open>\<open>s.replace('//', '/')\<close> replaces the first occurrence only.\<close>

fun replace_slashes :: "string \<Rightarrow> string" where
  "replace_slashes (a # b # cs) =
     (if a = CHR ''/'' \<and> b = CHR ''/'' then CHR ''/'' # cs else a # replace_slashes (b # cs))"
| "replace_slashes cs = cs"

text \<open>\<open>k.indexOf(c)\<close> for a one-character string \<open>c\<close>: the first index, or \<open>-1\<close>.\<close>

fun indexOf :: "string \<Rightarrow> char \<Rightarrow> int" where
  "indexOf [] c = - 1"
| "indexOf (x # xs) c =
     (if x = c then 0 else (let i = indexOf xs c in if i < 0 then - 1 else i + 1))"

section \<open>lib/bundle.js\<close>

definition specsTasks :: "(string \<times> string list) list" where
  "specsTasks =
     [(''spec'', [''PhantomJS'']),
      (''spec:chrome'', [''Chrome'']),
      (''spec:ie'', [''IE'']),
      (''spec:firefox'', [''Firefox'']),
      (''spec:edge'', [''Edge'']),
      (''spec:windows'', [''Chrome'', ''Firefox'', ''IE'', ''Edge'']),
      (''spec:linux'', [''Chrome'', ''Firefox''])]"

definition assetPaths :: "string \<Rightarrow> string \<Rightarrow> string list option \<Rightarrow> string list" where
  "assetPaths pre post folders = lodash_map folders (\<lambda>f. pre @ f @ post)"

text \<open>
  \<open>(bundle.root + '/').replace('//', '/')\<close>, also used for a dependency's root. The local
  variables \<open>root\<close> and \<open>minify\<close> of \<open>generate\<close> are written \<open>root'\<close> and \<open>minify'\<close> below,
  the record fields having these names.
\<close>

definition rootOf :: "BundleConfig \<Rightarrow> string" where
  "rootOf b = replace_slashes (BundleConfig.root b @ ''/'')"

text \<open>Lines 50 to 68: the templates and images tasks.\<close>

definition precache_stage ::
  "fsys \<Rightarrow> BundleConfig \<Rightarrow> string \<Rightarrow> state \<Rightarrow> string list \<Rightarrow> state \<times> string list" where
  "precache_stage F bundle root' st preBuildDeps =
     (if (case angular bundle of Some a \<Rightarrow> a | None \<Rightarrow> True) then
        let htmlFiles = globSync F (root' @ ''**/*.html'') [root' @ ''*.html''];
            (st, preBuildDeps) =
              (if htmlFiles \<noteq> [] then
                 let taskName = name bundle @ '':templates'' in
                 (gulp_task taskName []
                    (Some (TemplatesPreCache
                       [root' @ ''**/*.html'', ''!'' @ root' @ ''*.html''] (name bundle))) st,
                  preBuildDeps @ [taskName])
               else (st, preBuildDeps));
            svgFiles = globSync F (root' @ ''**/*.svg'')
                         (assetPaths root' ''/**/*'' (assetFolders bundle))
        in
          (if svgFiles \<noteq> [] then
             let taskName = name bundle @ '':images'' in
             (gulp_task taskName []
                (Some (ImagesPreCache
                   ([root' @ ''**/*.svg''] @ assetPaths root' ''/**/*/*.svg'' (assetFolders bundle))
                   (name bundle))) st,
              preBuildDeps @ [taskName])
           else (st, preBuildDeps))
      else (st, preBuildDeps))"

text \<open>Lines 70 to 75: the assets task.\<close>

definition assets_stage ::
  "BundleConfig \<Rightarrow> string \<Rightarrow> state \<Rightarrow> string list \<Rightarrow> state \<times> string list" where
  "assets_stage bundle root' st buildDeps =
     (let taskName = name bundle @ '':assets'' in
      (gulp_task taskName []
         (Some (CopyAssets (assetPaths root' ''/**/*'' (assetFolders bundle)) root'
                  (''dist/'' @ name bundle))) st,
       buildDeps @ [taskName]))"

text \<open>Lines 77 to 89: the styles task and the registry of style tasks.\<close>

definition styles_stage ::
  "fsys \<Rightarrow> BundleConfig \<Rightarrow> string \<Rightarrow> state \<Rightarrow> string list \<Rightarrow> state \<times> string list" where
  "styles_stage F bundle root' st preBuildDeps =
     (if existsSync F (root' @ ''index.scss'') then
        let deps = lodash_intersection (styleTasks st)
                     (lodash_map (dependencies bundle) (\<lambda>d. d @ '':styles''));
            taskName = name bundle @ '':styles'';
            st = gulp_task taskName deps
                   (Some (StylesCompile (root' @ ''index.scss'') (root' @ ''**/_*.scss'')
                            (''dist/'' @ name bundle @ ''/css/'') bundle)) st
        in (st\<lparr>styleTasks := styleTasks st @ [taskName]\<rparr>, preBuildDeps @ [taskName])
      else (st, preBuildDeps))"

text \<open>
  Lines 91 to 95. \<open>_.find\<close> gives \<open>undefined\<close> when no bundle has the name, and reading
  \<open>dep.root\<close> then throws.
\<close>

definition dependenciesCode :: "GlobalConfig \<Rightarrow> string \<Rightarrow> error + string list" where
  "dependenciesCode config nm =
     (case find (\<lambda>b. name b = nm) (bundles config) of
        None \<Rightarrow> Inl (TypeError ''root'')
      | Some dep \<Rightarrow>
          let depRoot = rootOf dep in
          Inr [depRoot @ ''**/*.ts'', ''!'' @ depRoot @ ''spec.ts'',
               ''!'' @ depRoot @ ''**/*.spec.ts'', ''!'' @ depRoot @ ''spec/**/*''])"

text \<open>Lines 103 to 105: the loop over the dependencies, left at the first throw.\<close>

fun forEach_dependency :: "GlobalConfig \<Rightarrow> string list \<Rightarrow> string list \<Rightarrow> error + string list" where
  "forEach_dependency config [] files = Inr files"
| "forEach_dependency config (d # ds) files =
     (case dependenciesCode config d of
        Inl e \<Rightarrow> Inl e
      | Inr code \<Rightarrow> forEach_dependency config ds (files @ code))"

text \<open>Lines 97 to 119: the tasks that verify and compile the code.\<close>

definition code_stage ::
  "fsys \<Rightarrow> BundleConfig \<Rightarrow> GlobalConfig \<Rightarrow> string \<Rightarrow> bool \<Rightarrow> string list \<Rightarrow> string list \<Rightarrow>
     state \<Rightarrow> string list \<Rightarrow> error \<times> state + state \<times> string list" where
  "code_stage F bundle config root' minify' preBuildDeps compileDeps st buildDeps =
     (if existsSync F (root' @ ''index.ts'') then
        let verifyName = name bundle @ '':code:verify'';
            files = [root' @ ''**/*.ts'', ''!'' @ root' @ ''spec.ts'',
                     ''!'' @ root' @ ''**/*.spec.ts'', ''!'' @ root' @ ''spec/**/*'']
        in
          (case forEach_dependency config (lodash_values (dependencies bundle)) files of
             Inl e \<Rightarrow> Inl (e, st)
           | Inr files \<Rightarrow>
               let st = gulp_task verifyName preBuildDeps (Some (CodeVerify files)) st;
                   compileDeps = compileDeps @ [verifyName];
                   taskName = name bundle @ '':code:compile'';
                   st = gulp_task taskName compileDeps
                          (Some (CodeCompile (root' @ ''index.ts'')
                                   (''dist/'' @ name bundle @ ''/js/'' @ name bundle @ ''.js'')
                                   (case BundleConfig.minify bundle of
                                      None \<Rightarrow> minify' | Some m \<Rightarrow> m)
                                   (library bundle) (globals bundle))) st
               in Inr (st, buildDeps @ [taskName]))
      else Inr (st, buildDeps))"

text \<open>Lines 121 to 133: \<open>preBuild\<close>, \<open>build-tasks\<close> and \<open>build\<close>.\<close>

definition build_stage ::
  "BundleConfig \<Rightarrow> string \<Rightarrow> string list \<Rightarrow> string list \<Rightarrow> state \<Rightarrow> state" where
  "build_stage bundle root' preBuildDeps buildDeps st =
     (let st = gulp_task (name bundle @ '':preBuild'') preBuildDeps None st;
          st = gulp_task (name bundle @ '':build-tasks'') (preBuildDeps @ buildDeps)
                 (Some (CopyRootFiles
                    [root' @ ''*'', ''!'' @ root' @ ''*.ts'', ''!'' @ root' @ ''*.scss'']
                    (''dist/'' @ name bundle))) st
      in gulp_task (name bundle @ '':build'') [name bundle @ '':build-tasks''] None st)"

text \<open>Lines 165 to 195: the body of the loop over \<open>specsTasks\<close>, for the key \<open>k\<close> and value \<open>v\<close>.\<close>

definition spec_task :: "BundleConfig \<Rightarrow> string \<Rightarrow> string \<times> string list \<Rightarrow> state \<Rightarrow> state" where
  "spec_task bundle compileName kv st =
     (let k = fst kv; v = snd kv;
          st = gulp_task (name bundle @ '':'' @ k) [compileName]
                 (Some (KarmaStart ''karma.conf.js'' v
                          (''.tmp/'' @ name bundle @ ''.spec.js'')
                          (''.tmp/'' @ name bundle @ ''.spec.js.map'') None)) st
      in if indexOf k CHR '':'' > 0 then
           gulp_task (name bundle @ '':'' @ k @ '':debug'') [compileName]
             (Some (KarmaStart ''karma.conf.js'' v
                      (''.tmp/'' @ name bundle @ ''.spec.js'')
                      (''.tmp/'' @ name bundle @ ''.spec.js.map'') (Some False))) st
         else st)"

text \<open>Lines 135 to 196: the tasks of the tests.\<close>

definition spec_stage ::
  "fsys \<Rightarrow> BundleConfig \<Rightarrow> string \<Rightarrow> bool \<Rightarrow> string list \<Rightarrow> state \<Rightarrow> state" where
  "spec_stage F bundle root' minify' preBuildDeps st =
     (if existsSync F (root' @ ''spec.ts'') then
        let injectName = name bundle @ '':spec:inject'';
            st = gulp_task injectName []
                   (Some (SpecInject (root' @ ''spec.ts'') (root' @ ''/**/*.spec.ts'')
                            (''.tmp/'' @ name bundle))) st;
            verifyName = name bundle @ '':spec:verify'';
            st = gulp_task verifyName [] (Some (CodeVerify [root' @ ''/**/*.ts''])) st;
            compileName = name bundle @ '':spec:compile'';
            st = gulp_task compileName ([verifyName, injectName] @ preBuildDeps)
                   (Some (CodeCompile (''.tmp/'' @ name bundle @ ''/spec.ts'')
                            (''.tmp/'' @ name bundle @ ''.spec.js'')
                            (case BundleConfig.minify bundle of
                               None \<Rightarrow> minify' | Some m \<Rightarrow> m)
                            (Some False) None)) st
        in fold (spec_task bundle compileName) specsTasks st
      else st)"

text \<open>Lines 198 to 200.\<close>

definition run_stage :: "BundleConfig \<Rightarrow> GlobalConfig \<Rightarrow> state \<Rightarrow> state" where
  "run_stage bundle config st =
     (if run bundle \<noteq> None then st\<lparr>run_generated := run_generated st @ [(bundle, config)]\<rparr>
      else st)"

text \<open>
  \<open>generate(bundle, config)\<close>. No array is changed after it was handed to \<open>gulp.task\<close>,
  so the lists are passed by value.
\<close>

definition generate :: "fsys \<Rightarrow> BundleConfig \<Rightarrow> GlobalConfig \<Rightarrow> state \<Rightarrow> outcome" where
  "generate F bundle config st =
     (let preBuildDeps = lodash_values (beforeBuild bundle)
                           @ lodash_map (dependencies bundle) (\<lambda>d. d @ '':preBuild'');
          buildDeps = [];
          compileDeps = [];
          root' = rootOf bundle;
          minify' = (case GlobalConfig.minify config of Some m \<Rightarrow> m | None \<Rightarrow> True);
          (st, preBuildDeps) = precache_stage F bundle root' st preBuildDeps;
          (st, buildDeps) = assets_stage bundle root' st buildDeps;
          (st, preBuildDeps) = styles_stage F bundle root' st preBuildDeps
      in
        (case code_stage F bundle config root' minify' preBuildDeps compileDeps st buildDeps of
           Inl (e, st) \<Rightarrow> Thrown e st
         | Inr (st, buildDeps) \<Rightarrow>
             let st = build_stage bundle root' preBuildDeps buildDeps st;
                 st = spec_stage F bundle root' minify' preBuildDeps st
             in Completed (run_stage bundle config st)))"

section \<open>What a call of \<open>generate\<close> leaves behind\<close>

fun state_of :: "outcome \<Rightarrow> state" where
  "state_of (Completed st) = st"
| "state_of (Thrown e st) = st"

fun thrown :: "outcome \<Rightarrow> error option" where
  "thrown (Completed st) = None"
| "thrown (Thrown e st) = Some e"

text \<open>The calls of \<open>gulp.task\<close> made between the state \<open>st\<close> and the outcome.\<close>

definition registered :: "state \<Rightarrow> outcome \<Rightarrow> task list" where
  "registered st out = drop (length (gulp_tasks st)) (gulp_tasks (state_of out))"

definition task_named :: "string \<Rightarrow> task list \<Rightarrow> task list" where
  "task_named n ts = filter (\<lambda>t. task_name t = n) ts"

text \<open>A sequence of calls of \<open>generate\<close>, one bundle after the other, left at the first throw.\<close>

fun generate_each :: "fsys \<Rightarrow> GlobalConfig \<Rightarrow> BundleConfig list \<Rightarrow> state \<Rightarrow> outcome" where
  "generate_each F config [] st = Completed st"
| "generate_each F config (b # bs) st =
     (case generate F b config st of
        Thrown e st' \<Rightarrow> Thrown e st'
      | Completed st' \<Rightarrow> generate_each F config bs st')"

text \<open>The state of the module when it is loaded: \<open>let styleTasks = []\<close>, no task registered.\<close>

definition initial :: state where
  "initial = \<lparr>styleTasks = [], gulp_tasks = [], run_generated = []\<rparr>"

section \<open>A file system to run the module on\<close>

text \<open>
  A directory tree given by the paths of its files, and the glob patterns the module
  writes: literal characters, \<open>*\<close> inside a path segment, and the segment \<open>**\<close> for any
  number of directories. As in the glob library a segment that starts with a dot is
  matched only by a pattern segment that starts with a dot, and repeated slashes count
  as one.
\<close>

fun wildcard :: "string \<Rightarrow> string \<Rightarrow> bool" where
  "wildcard [] [] = True"
| "wildcard [] (c # cs) = False"
| "wildcard (p # ps) [] = (p = CHR ''*'' \<and> wildcard ps [])"
| "wildcard (p # ps) (c # cs) =
     (if p = CHR ''*'' then wildcard ps (c # cs) \<or> wildcard (p # ps) cs
      else p = c \<and> wildcard ps cs)"

definition hidden :: "string \<Rightarrow> bool" where
  "hidden s = (case s of [] \<Rightarrow> False | c # cs \<Rightarrow> c = CHR ''.'')"

definition segment_match :: "string \<Rightarrow> string \<Rightarrow> bool" where
  "segment_match p s = ((hidden s \<longrightarrow> hidden p) \<and> wildcard p s)"

fun split_path :: "string \<Rightarrow> string \<Rightarrow> string list" where
  "split_path [] acc = (if acc = [] then [] else [acc])"
| "split_path (c # cs) acc =
     (if c = CHR ''/'' then (if acc = [] then split_path cs [] else acc # split_path cs [])
      else split_path cs (acc @ [c]))"

fun segments_match :: "string list \<Rightarrow> string list \<Rightarrow> bool" where
  "segments_match [] [] = True"
| "segments_match [] (s # ss) = False"
| "segments_match (p # ps) [] = False"
| "segments_match (p # ps) (s # ss) =
     (if p = ''**'' then segments_match ps (s # ss) \<or> (\<not> hidden s \<and> segments_match (p # ps) ss)
      else segment_match p s \<and> segments_match ps ss)"

definition glob_match :: "string \<Rightarrow> string \<Rightarrow> bool" where
  "glob_match pattern path = segments_match (split_path pattern []) (split_path path [])"

text \<open>
  \<open>glob.sync(pattern, { ignore })\<close> and \<open>fs.existsSync\<close> on the tree \<open>files\<close>, and the
  files \<open>gulp.src(globs)\<close> reads: those a glob without \<open>!\<close> matches and no glob with
  \<open>!\<close> matches.
\<close>

definition disk :: "string list \<Rightarrow> fsys" where
  "disk files =
     \<lparr>existsSync = (\<lambda>p. p \<in> set files),
      globSync = (\<lambda>pattern ignore.
         filter (\<lambda>f. glob_match pattern f \<and> \<not> list_ex (\<lambda>i. glob_match i f) ignore) files)\<rparr>"

definition negated :: "string \<Rightarrow> bool" where
  "negated g = (case g of [] \<Rightarrow> False | c # cs \<Rightarrow> c = CHR ''!'')"

definition gulp_src :: "string list \<Rightarrow> string list \<Rightarrow> string list" where
  "gulp_src files globs =
     filter (\<lambda>f. list_ex (\<lambda>g. \<not> negated g \<and> glob_match g f) globs
               \<and> \<not> list_ex (\<lambda>g. negated g \<and> glob_match (tl g) f) globs) files"

section \<open>The vocabulary of the specification\<close>

text \<open>
  The questions the specification's convention probe answers, each the expression
  \<open>generate\<close> evaluates for it.
\<close>

definition angular_enabled :: "BundleConfig \<Rightarrow> bool" where
  "angular_enabled b = (case angular b of Some a \<Rightarrow> a | None \<Rightarrow> True)"

definition findTemplates :: "fsys \<Rightarrow> BundleConfig \<Rightarrow> string list" where
  "findTemplates F b = globSync F (rootOf b @ ''**/*.html'') [rootOf b @ ''*.html'']"

definition findImages :: "fsys \<Rightarrow> BundleConfig \<Rightarrow> string list" where
  "findImages F b =
     globSync F (rootOf b @ ''**/*.svg'') (assetPaths (rootOf b) ''/**/*'' (assetFolders b))"

definition hasStyleEntry :: "fsys \<Rightarrow> BundleConfig \<Rightarrow> bool" where
  "hasStyleEntry F b = existsSync F (rootOf b @ ''index.scss'')"

definition hasCodeEntry :: "fsys \<Rightarrow> BundleConfig \<Rightarrow> bool" where
  "hasCodeEntry F b = existsSync F (rootOf b @ ''index.ts'')"

definition hasSpecEntry :: "fsys \<Rightarrow> BundleConfig \<Rightarrow> bool" where
  "hasSpecEntry F b = existsSync F (rootOf b @ ''spec.ts'')"

text \<open>Every declared dependency is the name of a bundle of the configuration.\<close>

definition known_dependencies :: "GlobalConfig \<Rightarrow> BundleConfig \<Rightarrow> bool" where
  "known_dependencies c b =
     list_all (\<lambda>d. find (\<lambda>x. name x = d) (bundles c) \<noteq> None) (lodash_values (dependencies b))"

text \<open>
  The globs for the non-spec \<open>.ts\<close> files under a root, and those of the bundle that a
  dependency names.
\<close>

definition non_spec_sources :: "string \<Rightarrow> string list" where
  "non_spec_sources r =
     [r @ ''**/*.ts'', ''!'' @ r @ ''spec.ts'', ''!'' @ r @ ''**/*.spec.ts'', ''!'' @ r @ ''spec/**/*'']"

definition dependency_sources :: "GlobalConfig \<Rightarrow> string \<Rightarrow> string list" where
  "dependency_sources c d =
     (case find (\<lambda>x. name x = d) (bundles c) of
        Some dep \<Rightarrow> non_spec_sources (rootOf dep)
      | None \<Rightarrow> [])"

text \<open>The roots of the bundle and of the bundles its declared dependencies name.\<close>

definition verify_roots :: "GlobalConfig \<Rightarrow> BundleConfig \<Rightarrow> string list" where
  "verify_roots c b =
     rootOf b # concat (map (\<lambda>d. case find (\<lambda>x. name x = d) (bundles c) of
                                   Some dep \<Rightarrow> [rootOf dep] | None \<Rightarrow> [])
                          (lodash_values (dependencies b)))"

text \<open>
  The effective minify flag in the words of the specification: the bundle's
  \<open>minify\<close> if defined, else the global one if defined, else \<open>true\<close>.
\<close>

definition effective_minify :: "BundleConfig \<Rightarrow> GlobalConfig \<Rightarrow> bool" where
  "effective_minify b c =
     (case BundleConfig.minify b of
        Some m \<Rightarrow> m
      | None \<Rightarrow> (case GlobalConfig.minify c of Some m \<Rightarrow> m | None \<Rightarrow> True))"

text \<open>The minify and library arguments of a task that calls \<open>code.compile\<close>.\<close>

definition compile_minify :: "task \<Rightarrow> bool option" where
  "compile_minify t =
     (case task_action t of Some (CodeCompile e out m l g) \<Rightarrow> Some m | _ \<Rightarrow> None)"

definition compile_library :: "task \<Rightarrow> bool option option" where
  "compile_library t =
     (case task_action t of Some (CodeCompile e out m l g) \<Rightarrow> Some l | _ \<Rightarrow> None)"

text \<open>
  A task that starts karma: a base test task passes no \<open>singleRun\<close>, a debug variant
  passes \<open>singleRun: false\<close>.
\<close>

definition base_test_task :: "task \<Rightarrow> bool" where
  "base_test_task t =
     (case task_action t of Some (KarmaStart cf br js mp None) \<Rightarrow> True | _ \<Rightarrow> False)"

definition debug_test_task :: "task \<Rightarrow> bool" where
  "debug_test_task t =
     (case task_action t of Some (KarmaStart cf br js mp (Some sr)) \<Rightarrow> \<not> sr | _ \<Rightarrow> False)"

text \<open>The bundle a styles task was generated for.\<close>

definition styles_bundle :: "task \<Rightarrow> BundleConfig option" where
  "styles_bundle t =
     (case task_action t of Some (StylesCompile e p out b) \<Rightarrow> Some b | _ \<Rightarrow> None)"

text \<open>
  A styles task leaves its own id out of its prerequisites; a task of another kind
  is not concerned.
\<close>

definition own_id_left_out :: "task \<Rightarrow> bool" where
  "own_id_left_out t =
     (case styles_bundle t of
        None \<Rightarrow> True
      | Some b \<Rightarrow> task_name t = name b @ '':styles'' \<and> task_name t \<notin> set (task_deps t))"

text \<open>A list that is there only under a condition.\<close>

definition only_if :: "bool \<Rightarrow> 'a list \<Rightarrow> 'a list" where
  "only_if c xs = (if c then xs else [])"

section \<open>A project to run the module on\<close>

definition sample_files :: "string list" where
  "sample_files =
     [''base/index.ts'', ''base/index.scss'',
      ''lib/index.ts'', ''lib/util.ts'', ''lib/index.scss'',
      ''src/index.ts'', ''src/index.scss'', ''src/spec.ts'', ''src/app.spec.ts'',
      ''src/a.svg'', ''src/assets/logo.svg'', ''src/views/x.html'',
      ''site/index.scss'', ''docs/readme.md'']"

definition plain_bundle :: "string \<Rightarrow> string \<Rightarrow> BundleConfig" where
  "plain_bundle n r =
     \<lparr>name = n, dependencies = None, root = r, angular = None, library = None,
      BundleConfig.minify = None, beforeBuild = None, assetFolders = None, globals = None,
      run = None\<rparr>"

definition base_bundle :: BundleConfig where
  "base_bundle = plain_bundle ''base'' ''base''"

definition core_bundle :: BundleConfig where
  "core_bundle = (plain_bundle ''core'' ''lib/'')
     \<lparr>dependencies := Some [''base''], library := Some True, BundleConfig.minify := Some False\<rparr>"

definition app_bundle :: BundleConfig where
  "app_bundle = (plain_bundle ''app'' ''src'')
     \<lparr>dependencies := Some [''core''], assetFolders := Some [''assets'']\<rparr>"

definition site_bundle :: BundleConfig where
  "site_bundle = (plain_bundle ''site'' ''site'')\<lparr>dependencies := Some [''core'', ''base'']\<rparr>"

definition docs_bundle :: BundleConfig where
  "docs_bundle = (plain_bundle ''docs'' ''docs'')\<lparr>dependencies := Some [''missing'']\<rparr>"

definition broken_bundle :: BundleConfig where
  "broken_bundle = (plain_bundle ''broken'' ''src'')\<lparr>dependencies := Some [''missing'']\<rparr>"

definition sample_config :: GlobalConfig where
  "sample_config =
     \<lparr>minify = None, beforeClean = None,
      bundles = [base_bundle, core_bundle, app_bundle, site_bundle]\<rparr>"

text \<open>
  A project with nested roots: \<open>app\<close> depends on \<open>core\<close> and \<open>core\<close> on \<open>base\<close>, the root of
  each dependency lying under the root of its dependent.
\<close>

definition nested_files :: "string list" where
  "nested_files = [''src/index.ts'', ''src/core/index.ts'', ''src/core/base/index.ts'']"

definition nested_base :: BundleConfig where
  "nested_base = plain_bundle ''base'' ''src/core/base''"

definition nested_core :: BundleConfig where
  "nested_core = (plain_bundle ''core'' ''src/core'')\<lparr>dependencies := Some [''base'']\<rparr>"

definition nested_app :: BundleConfig where
  "nested_app = (plain_bundle ''app'' ''src'')\<lparr>dependencies := Some [''core'']\<rparr>"

definition nested_config :: GlobalConfig where
  "nested_config =
     \<lparr>minify = None, beforeClean = None, bundles = [nested_base, nested_core, nested_app]\<rparr>"

text \<open>The states after the calls for \<open>base\<close>, then \<open>core\<close>, then \<open>app\<close>.\<close>

definition after_base :: state where
  "after_base = state_of (generate (disk sample_files) base_bundle sample_config initial)"

definition after_core :: state where
  "after_core = state_of (generate (disk sample_files) core_bundle sample_config after_base)"

definition after_app :: state where
  "after_app = state_of (generate_each (disk sample_files) sample_config [app_bundle] after_core)"

lemmas sample_defs =
  sample_files_def plain_bundle_def base_bundle_def core_bundle_def app_bundle_def
  site_bundle_def docs_bundle_def broken_bundle_def sample_config_def

section \<open>What each part of \<open>generate\<close> registers\<close>

lemma if_only_if: "(if c then xs else []) = only_if c xs"
  by (simp add: only_if_def)

lemma if_not_only_if: "(if c then [] else xs) = only_if (\<not> c) xs"
  by (simp add: only_if_def)

lemma only_if_simps [simp]:
  "only_if c [] = []"
  "only_if True xs = xs"
  "only_if False xs = []"
  "filter P (only_if c xs) = only_if c (filter P xs)"
  "map f (only_if c xs) = only_if c (map f xs)"
  by (simp_all add: only_if_def)

lemma set_only_if: "x \<in> set (only_if c xs) \<longleftrightarrow> c \<and> x \<in> set xs"
  by (simp add: only_if_def)

lemma precache_stage_eq:
  "precache_stage F b (rootOf b) st pb =
     (let T = (if angular_enabled b \<and> findTemplates F b \<noteq> [] then
                 [\<lparr>task_name = name b @ '':templates'', task_deps = [],
                   task_action = Some (TemplatesPreCache
                     [rootOf b @ ''**/*.html'', ''!'' @ rootOf b @ ''*.html''] (name b))\<rparr>]
               else []);
          I = (if angular_enabled b \<and> findImages F b \<noteq> [] then
                 [\<lparr>task_name = name b @ '':images'', task_deps = [],
                   task_action = Some (ImagesPreCache
                     ([rootOf b @ ''**/*.svg'']
                        @ assetPaths (rootOf b) ''/**/*/*.svg'' (assetFolders b))
                     (name b))\<rparr>]
               else [])
      in (st\<lparr>gulp_tasks := gulp_tasks st @ T @ I\<rparr>, pb @ map task_name (T @ I)))"
  by (simp add: precache_stage_def gulp_task_def Let_def angular_enabled_def findTemplates_def
        findImages_def split: option.splits)

lemma styles_stage_eq:
  "styles_stage F b (rootOf b) st pb =
     (let S = (if hasStyleEntry F b then
                 [\<lparr>task_name = name b @ '':styles'',
                   task_deps = lodash_intersection (styleTasks st)
                                 (lodash_map (dependencies b) (\<lambda>d. d @ '':styles'')),
                   task_action = Some (StylesCompile (rootOf b @ ''index.scss'')
                                   (rootOf b @ ''**/_*.scss'') (''dist/'' @ name b @ ''/css/'') b)\<rparr>]
               else [])
      in (st\<lparr>styleTasks := styleTasks st @ map task_name S, gulp_tasks := gulp_tasks st @ S\<rparr>,
          pb @ map task_name S))"
  by (simp add: styles_stage_def gulp_task_def Let_def hasStyleEntry_def)

lemma forEach_dependency_known:
  "list_all (\<lambda>d. find (\<lambda>x. name x = d) (bundles c) \<noteq> None) ds \<Longrightarrow>
   forEach_dependency c ds files = Inr (files @ concat (map (dependency_sources c) ds))"
  by (induction ds arbitrary: files)
     (auto simp: dependenciesCode_def dependency_sources_def non_spec_sources_def Let_def)

lemma forEach_dependency_unknown:
  "\<not> list_all (\<lambda>d. find (\<lambda>x. name x = d) (bundles c) \<noteq> None) ds \<Longrightarrow>
   forEach_dependency c ds files = Inl (TypeError ''root'')"
  by (induction ds arbitrary: files)
     (auto simp: dependenciesCode_def Let_def split: option.splits)

lemma code_stage_eq:
  "code_stage F b c (rootOf b) m pb cd st bd =
     (if hasCodeEntry F b then
        if known_dependencies c b then
          Inr (st\<lparr>gulp_tasks := gulp_tasks st @
                 [\<lparr>task_name = name b @ '':code:verify'', task_deps = pb,
                   task_action = Some (CodeVerify
                     (non_spec_sources (rootOf b)
                        @ concat (map (dependency_sources c) (lodash_values (dependencies b)))))\<rparr>,
                  \<lparr>task_name = name b @ '':code:compile'',
                   task_deps = cd @ [name b @ '':code:verify''],
                   task_action = Some (CodeCompile (rootOf b @ ''index.ts'')
                     (''dist/'' @ name b @ ''/js/'' @ name b @ ''.js'')
                     (case BundleConfig.minify b of None \<Rightarrow> m | Some x \<Rightarrow> x)
                     (library b) (globals b))\<rparr>]\<rparr>,
               bd @ [name b @ '':code:compile''])
        else Inl (TypeError ''root'', st)
      else Inr (st, bd))"
proof -
  have own: "[rootOf b @ ''**/*.ts'', ''!'' @ rootOf b @ ''spec.ts'',
              ''!'' @ rootOf b @ ''**/*.spec.ts'', ''!'' @ rootOf b @ ''spec/**/*'']
             = non_spec_sources (rootOf b)"
    by (simp add: non_spec_sources_def)
  show ?thesis
  proof (cases "known_dependencies c b")
    case True
    then show ?thesis
      unfolding code_stage_def own Let_def
      by (simp add: known_dependencies_def forEach_dependency_known hasCodeEntry_def gulp_task_def)
  next
    case False
    then show ?thesis
      unfolding code_stage_def own Let_def
      by (simp add: known_dependencies_def forEach_dependency_unknown hasCodeEntry_def)
  qed
qed

lemma code_stage_completed:
  assumes "(hasCodeEntry F b \<and> \<not> known_dependencies c b) = False"
  shows "code_stage F b c (rootOf b) m pb cd st bd =
      Inr (st\<lparr>gulp_tasks := gulp_tasks st @
             (if hasCodeEntry F b then
                [\<lparr>task_name = name b @ '':code:verify'', task_deps = pb,
                  task_action = Some (CodeVerify
                    (non_spec_sources (rootOf b)
                       @ concat (map (dependency_sources c) (lodash_values (dependencies b)))))\<rparr>,
                 \<lparr>task_name = name b @ '':code:compile'',
                  task_deps = cd @ [name b @ '':code:verify''],
                  task_action = Some (CodeCompile (rootOf b @ ''index.ts'')
                    (''dist/'' @ name b @ ''/js/'' @ name b @ ''.js'')
                    (case BundleConfig.minify b of None \<Rightarrow> m | Some x \<Rightarrow> x)
                    (library b) (globals b))\<rparr>]
              else [])\<rparr>,
           bd @ (if hasCodeEntry F b then [name b @ '':code:compile''] else []))"
  using assms by (auto simp: code_stage_eq)

lemma fold_spec_task:
  "fold (spec_task b cn) kvs st =
     st\<lparr>gulp_tasks := gulp_tasks st @ concat (map (\<lambda>kv. gulp_tasks (spec_task b cn kv initial)) kvs)\<rparr>"
proof (induction kvs arbitrary: st)
  case Nil
  then show ?case by simp
next
  case (Cons kv kvs)
  have step: "spec_task b cn kv st =
      st\<lparr>gulp_tasks := gulp_tasks st @ gulp_tasks (spec_task b cn kv initial)\<rparr>"
    by (simp add: spec_task_def gulp_task_def Let_def initial_def)
  show ?case
    by (simp add: Cons.IH) (simp add: step)
qed

lemma spec_stage_eq:
  "spec_stage F b (rootOf b) m pb st =
     st\<lparr>gulp_tasks := gulp_tasks st @
        (if hasSpecEntry F b then
           [\<lparr>task_name = name b @ '':spec:inject'', task_deps = [],
             task_action = Some (SpecInject (rootOf b @ ''spec.ts'') (rootOf b @ ''/**/*.spec.ts'')
                                   (''.tmp/'' @ name b))\<rparr>,
            \<lparr>task_name = name b @ '':spec:verify'', task_deps = [],
             task_action = Some (CodeVerify [rootOf b @ ''/**/*.ts''])\<rparr>,
            \<lparr>task_name = name b @ '':spec:compile'',
             task_deps = [name b @ '':spec:verify'', name b @ '':spec:inject''] @ pb,
             task_action = Some (CodeCompile (''.tmp/'' @ name b @ ''/spec.ts'')
                                   (''.tmp/'' @ name b @ ''.spec.js'')
                                   (case BundleConfig.minify b of None \<Rightarrow> m | Some x \<Rightarrow> x)
                                   (Some False) None)\<rparr>]
           @ concat (map (\<lambda>kv. gulp_tasks (spec_task b (name b @ '':spec:compile'') kv initial))
                       specsTasks)
         else [])\<rparr>"
  by (simp add: spec_stage_def hasSpecEntry_def Let_def fold_spec_task) (simp add: gulp_task_def)

lemma run_stage_fields [simp]:
  "gulp_tasks (run_stage b c st) = gulp_tasks st"
  "styleTasks (run_stage b c st) = styleTasks st"
  by (simp_all add: run_stage_def)

text \<open>The tasks one call registers, in the order of the calls of \<open>gulp.task\<close>.\<close>

lemma registered_generate:
  "registered st (generate F b c st) =
     (let m = (case GlobalConfig.minify c of Some x \<Rightarrow> x | None \<Rightarrow> True);
          T = (if angular_enabled b \<and> findTemplates F b \<noteq> [] then
                 [\<lparr>task_name = name b @ '':templates'', task_deps = [],
                   task_action = Some (TemplatesPreCache
                     [rootOf b @ ''**/*.html'', ''!'' @ rootOf b @ ''*.html''] (name b))\<rparr>]
               else []);
          I = (if angular_enabled b \<and> findImages F b \<noteq> [] then
                 [\<lparr>task_name = name b @ '':images'', task_deps = [],
                   task_action = Some (ImagesPreCache
                     ([rootOf b @ ''**/*.svg'']
                        @ assetPaths (rootOf b) ''/**/*/*.svg'' (assetFolders b))
                     (name b))\<rparr>]
               else []);
          A = [\<lparr>task_name = name b @ '':assets'', task_deps = [],
                task_action = Some (CopyAssets (assetPaths (rootOf b) ''/**/*'' (assetFolders b))
                                      (rootOf b) (''dist/'' @ name b))\<rparr>];
          S = (if hasStyleEntry F b then
                 [\<lparr>task_name = name b @ '':styles'',
                   task_deps = lodash_intersection (styleTasks st)
                                 (lodash_map (dependencies b) (\<lambda>d. d @ '':styles'')),
                   task_action = Some (StylesCompile (rootOf b @ ''index.scss'')
                                   (rootOf b @ ''**/_*.scss'') (''dist/'' @ name b @ ''/css/'') b)\<rparr>]
               else []);
          pb = lodash_values (beforeBuild b) @ lodash_map (dependencies b) (\<lambda>d. d @ '':preBuild'')
                 @ map task_name (T @ I @ S);
          C = (if hasCodeEntry F b then
                 [\<lparr>task_name = name b @ '':code:verify'', task_deps = pb,
                   task_action = Some (CodeVerify
                     (non_spec_sources (rootOf b)
                        @ concat (map (dependency_sources c) (lodash_values (dependencies b)))))\<rparr>,
                  \<lparr>task_name = name b @ '':code:compile'',
                   task_deps = [name b @ '':code:verify''],
                   task_action = Some (CodeCompile (rootOf b @ ''index.ts'')
                     (''dist/'' @ name b @ ''/js/'' @ name b @ ''.js'')
                     (case BundleConfig.minify b of None \<Rightarrow> m | Some x \<Rightarrow> x)
                     (library b) (globals b))\<rparr>]
               else []);
          B = [\<lparr>task_name = name b @ '':preBuild'', task_deps = pb, task_action = None\<rparr>,
               \<lparr>task_name = name b @ '':build-tasks'',
                task_deps = pb @ map task_name A
                              @ (if hasCodeEntry F b then [name b @ '':code:compile''] else []),
                task_action = Some (CopyRootFiles
                  [rootOf b @ ''*'', ''!'' @ rootOf b @ ''*.ts'', ''!'' @ rootOf b @ ''*.scss'']
                  (''dist/'' @ name b))\<rparr>,
               \<lparr>task_name = name b @ '':build'', task_deps = [name b @ '':build-tasks''],
                task_action = None\<rparr>];
          X = (if hasSpecEntry F b then
                 [\<lparr>task_name = name b @ '':spec:inject'', task_deps = [],
                   task_action = Some (SpecInject (rootOf b @ ''spec.ts'')
                                         (rootOf b @ ''/**/*.spec.ts'') (''.tmp/'' @ name b))\<rparr>,
                  \<lparr>task_name = name b @ '':spec:verify'', task_deps = [],
                   task_action = Some (CodeVerify [rootOf b @ ''/**/*.ts''])\<rparr>,
                  \<lparr>task_name = name b @ '':spec:compile'',
                   task_deps = [name b @ '':spec:verify'', name b @ '':spec:inject''] @ pb,
                   task_action = Some (CodeCompile (''.tmp/'' @ name b @ ''/spec.ts'')
                                         (''.tmp/'' @ name b @ ''.spec.js'')
                                         (case BundleConfig.minify b of None \<Rightarrow> m | Some x \<Rightarrow> x)
                                         (Some False) None)\<rparr>]
                 @ concat (map (\<lambda>kv. gulp_tasks
                                  (spec_task b (name b @ '':spec:compile'') kv initial)) specsTasks)
               else [])
      in T @ I @ A @ S
           @ (if hasCodeEntry F b \<and> \<not> known_dependencies c b then [] else C @ B @ X))"
proof (cases "hasCodeEntry F b \<and> \<not> known_dependencies c b")
  case True
  then show ?thesis
    unfolding generate_def Let_def precache_stage_eq styles_stage_eq assets_stage_def
    by (simp add: code_stage_eq gulp_task_def registered_def split del: if_split cong: if_cong)
next
  case False
  then have nf: "(hasCodeEntry F b \<and> \<not> known_dependencies c b) = False"
    by simp
  show ?thesis
    unfolding generate_def Let_def precache_stage_eq styles_stage_eq assets_stage_def
      code_stage_completed [OF nf]
    by (simp add: nf build_stage_def spec_stage_eq gulp_task_def
          registered_def split del: if_split cong: if_cong)
qed

lemma gulp_tasks_generate:
  "gulp_tasks (state_of (generate F b c st)) = gulp_tasks st @ registered st (generate F b c st)"
proof (cases "hasCodeEntry F b \<and> \<not> known_dependencies c b")
  case True
  then show ?thesis
    unfolding generate_def Let_def precache_stage_eq styles_stage_eq assets_stage_def
    by (simp add: code_stage_eq gulp_task_def registered_def split del: if_split cong: if_cong)
next
  case False
  then have nf: "(hasCodeEntry F b \<and> \<not> known_dependencies c b) = False"
    by simp
  show ?thesis
    unfolding generate_def Let_def precache_stage_eq styles_stage_eq assets_stage_def
      code_stage_completed [OF nf]
    by (simp add: nf build_stage_def spec_stage_eq gulp_task_def
          registered_def split del: if_split cong: if_cong)
qed

lemma thrown_generate:
  "thrown (generate F b c st) =
     (if hasCodeEntry F b \<and> \<not> known_dependencies c b then Some (TypeError ''root'') else None)"
  unfolding generate_def Let_def precache_stage_eq styles_stage_eq assets_stage_def
  by (simp add: code_stage_eq)

lemma styleTasks_generate:
  "styleTasks (state_of (generate F b c st)) =
     styleTasks st @ (if hasStyleEntry F b then [name b @ '':styles''] else [])"
  unfolding generate_def Let_def precache_stage_eq styles_stage_eq assets_stage_def
  by (simp add: code_stage_eq build_stage_def spec_stage_eq gulp_task_def)

lemma not_thrown:
  "thrown (generate F b c st) = None \<Longrightarrow>
   (hasCodeEntry F b \<and> \<not> known_dependencies c b) = False"
  by (simp add: thrown_generate split: if_splits)

lemma not_thrown_known:
  "thrown (generate F b c st) = None \<Longrightarrow> hasCodeEntry F b \<Longrightarrow> known_dependencies c b"
  by (simp add: thrown_generate split: if_splits)

lemmas run_spec_tasks = specsTasks_def spec_task_def gulp_task_def initial_def Let_def

section \<open>The sample project\<close>

lemma sample_probe:
  "hasCodeEntry (disk sample_files) app_bundle"
  "hasSpecEntry (disk sample_files) app_bundle"
  "hasStyleEntry (disk sample_files) app_bundle"
  "known_dependencies sample_config app_bundle"
  "rootOf app_bundle = ''src/''"
  "rootOf core_bundle = ''lib/''"
  by (simp_all add: hasCodeEntry_def hasSpecEntry_def hasStyleEntry_def known_dependencies_def
        disk_def rootOf_def lodash_values_def sample_defs)

lemma sample_completes: "thrown (generate (disk sample_files) app_bundle sample_config st) = None"
  by (simp add: thrown_generate sample_probe)

section \<open>The test matrix\<close>

text \<open>
  Claim C1, as the code has it. For every bundle whose root contains \<open>spec.ts\<close> and whose
  call of \<open>generate\<close> is not left by a throw, the call registers exactly 7 base test tasks,
  one per preset key, and exactly 6 debug variants: one for every preset whose key has a
  \<open>:\<close> after its first character, that is \<open>spec:chrome\<close>, \<open>spec:ie\<close>, \<open>spec:firefox\<close>,
  \<open>spec:edge\<close>, \<open>spec:windows\<close> and \<open>spec:linux\<close>, all presets but \<open>spec\<close>.
\<close>

theorem test_tasks:
  assumes "hasSpecEntry F b" and "thrown (generate F b c st) = None"
  shows "map task_name (filter base_test_task (registered st (generate F b c st))) =
           map (\<lambda>k. name b @ '':'' @ k)
             [''spec'', ''spec:chrome'', ''spec:ie'', ''spec:firefox'', ''spec:edge'',
              ''spec:windows'', ''spec:linux'']
       \<and> map task_name (filter debug_test_task (registered st (generate F b c st))) =
           map (\<lambda>k. name b @ '':'' @ k @ '':debug'')
             [''spec:chrome'', ''spec:ie'', ''spec:firefox'', ''spec:edge'',
              ''spec:windows'', ''spec:linux'']
       \<and> length (filter base_test_task (registered st (generate F b c st))) = 7
       \<and> length (filter debug_test_task (registered st (generate F b c st))) = 6"
  using assms(1)
  by (simp add: registered_generate not_thrown [OF assms(2)] if_only_if
        base_test_task_def debug_test_task_def
        run_spec_tasks split del: if_split)

theorem test_tasks_witness:
  "hasSpecEntry (disk sample_files) app_bundle
   \<and> thrown (generate (disk sample_files) app_bundle sample_config initial) = None
   \<and> map task_name (filter base_test_task
        (registered initial (generate (disk sample_files) app_bundle sample_config initial))) =
       [''app:spec'', ''app:spec:chrome'', ''app:spec:ie'', ''app:spec:firefox'',
        ''app:spec:edge'', ''app:spec:windows'', ''app:spec:linux'']
   \<and> map task_name (filter debug_test_task
        (registered initial (generate (disk sample_files) app_bundle sample_config initial))) =
       [''app:spec:chrome:debug'', ''app:spec:ie:debug'', ''app:spec:firefox:debug'',
        ''app:spec:edge:debug'', ''app:spec:windows:debug'', ''app:spec:linux:debug'']"
proof -
  have names: "name app_bundle = ''app''"
    by (simp add: sample_defs)
  from test_tasks [OF sample_probe(2) sample_completes, of initial]
  show ?thesis
    using sample_probe(2) sample_completes by (simp add: names)
qed

text \<open>
  Claim C1 as the specification states it, with exactly 4 debug variants and none for
  \<open>spec:windows\<close> and \<open>spec:linux\<close>, fails on the sample bundle \<open>app\<close>: 6 debug variants
  are registered, \<open>app:spec:windows:debug\<close> among them.
\<close>

theorem test_tasks_counterexample:
  "hasSpecEntry (disk sample_files) app_bundle
   \<and> length (filter debug_test_task
        (registered initial (generate (disk sample_files) app_bundle sample_config initial))) = 6
   \<and> ''app:spec:windows:debug'' \<in> set (map task_name
        (registered initial (generate (disk sample_files) app_bundle sample_config initial)))"
  by (simp add: registered_generate sample_probe if_only_if debug_test_task_def
        run_spec_tasks split del: if_split)  (simp add: sample_defs)

section \<open>Dependencies between bundles\<close>

text \<open>
  Claim C8. When bundle \<open>B\<close> declares bundle \<open>A\<close> in its dependencies, the task
  \<open>B:preBuild\<close> that the call of \<open>generate\<close> for \<open>B\<close> registers has the task id
  \<open>A:preBuild\<close> among its prerequisites. This holds whether or not the bundles have an
  \<open>index.ts\<close>; the call must not be left by a throw, since \<open>B:preBuild\<close> is registered
  after the code stage.
\<close>

theorem preBuild_prerequisite:
  assumes "name A \<in> set (lodash_values (dependencies B))"
    and "thrown (generate F B c st) = None"
  shows "\<exists>t. task_named (name B @ '':preBuild'') (registered st (generate F B c st)) = [t]
           \<and> name A @ '':preBuild'' \<in> set (task_deps t)"
  using assms(1)
  by (simp add: registered_generate not_thrown [OF assms(2)] task_named_def if_only_if
        run_spec_tasks lodash_map_def split del: if_split)

theorem preBuild_prerequisite_witness:
  "name core_bundle \<in> set (lodash_values (dependencies app_bundle))
   \<and> hasCodeEntry (disk sample_files) core_bundle
   \<and> hasCodeEntry (disk sample_files) app_bundle
   \<and> thrown (generate (disk sample_files) app_bundle sample_config initial) = None
   \<and> (\<exists>t. task_named ''app:preBuild''
             (registered initial (generate (disk sample_files) app_bundle sample_config initial)) = [t]
           \<and> ''core:preBuild'' \<in> set (task_deps t))"
proof -
  have dep: "name core_bundle \<in> set (lodash_values (dependencies app_bundle))"
    by (simp add: lodash_values_def sample_defs)
  have code: "hasCodeEntry (disk sample_files) core_bundle"
    by (simp add: hasCodeEntry_def disk_def rootOf_def sample_defs)
  have names: "name app_bundle = ''app''" "name core_bundle = ''core''"
    by (simp_all add: sample_defs)
  from preBuild_prerequisite [OF dep sample_completes, of initial]
  show ?thesis
    using dep code sample_completes by (simp add: names sample_probe)
qed

section \<open>The preset table\<close>

text \<open>
  Claim C2, as the code has it. The preset table maps \<open>spec\<close> to \<open>PhantomJS\<close> (the
  headless browser), \<open>spec:chrome\<close> to \<open>Chrome\<close>, \<open>spec:ie\<close> to \<open>IE\<close>, \<open>spec:firefox\<close> to
  \<open>Firefox\<close>, \<open>spec:edge\<close> to \<open>Edge\<close>, \<open>spec:windows\<close> to \<open>Chrome, Firefox, IE, Edge\<close> and
  \<open>spec:linux\<close> to \<open>Chrome, Firefox\<close>. For every preset, a completed call for a bundle with
  \<open>spec.ts\<close> registers exactly one task \<open><name>:<presetKey>\<close>; it depends on the compiled
  spec bundle and starts karma with the preset's browsers and without a \<open>singleRun\<close>
  option, which is left to the karma configuration file.
\<close>

theorem preset_tasks:
  assumes "hasSpecEntry F b" and "thrown (generate F b c st) = None"
    and "(k, v) \<in> set specsTasks"
  shows "specsTasks =
           [(''spec'', [''PhantomJS'']), (''spec:chrome'', [''Chrome'']), (''spec:ie'', [''IE'']),
            (''spec:firefox'', [''Firefox'']), (''spec:edge'', [''Edge'']),
            (''spec:windows'', [''Chrome'', ''Firefox'', ''IE'', ''Edge'']),
            (''spec:linux'', [''Chrome'', ''Firefox''])]
       \<and> task_named (name b @ '':'' @ k) (registered st (generate F b c st)) =
           [\<lparr>task_name = name b @ '':'' @ k, task_deps = [name b @ '':spec:compile''],
             task_action = Some (KarmaStart ''karma.conf.js'' v
                                   (''.tmp/'' @ name b @ ''.spec.js'')
                                   (''.tmp/'' @ name b @ ''.spec.js.map'') None)\<rparr>]"
proof -
  from assms(3) have "(k, v) \<in> {(''spec'', [''PhantomJS'']), (''spec:chrome'', [''Chrome'']),
      (''spec:ie'', [''IE'']), (''spec:firefox'', [''Firefox'']), (''spec:edge'', [''Edge'']),
      (''spec:windows'', [''Chrome'', ''Firefox'', ''IE'', ''Edge'']),
      (''spec:linux'', [''Chrome'', ''Firefox''])}"
    by (simp add: specsTasks_def)
  then have "task_named (name b @ '':'' @ k) (registered st (generate F b c st)) =
           [\<lparr>task_name = name b @ '':'' @ k, task_deps = [name b @ '':spec:compile''],
             task_action = Some (KarmaStart ''karma.conf.js'' v
                                   (''.tmp/'' @ name b @ ''.spec.js'')
                                   (''.tmp/'' @ name b @ ''.spec.js.map'') None)\<rparr>]"
    using assms(1)
    by (elim insertE emptyE)
       (simp_all add: registered_generate not_thrown [OF assms(2)] task_named_def if_only_if
          run_spec_tasks split del: if_split)
  then show ?thesis
    by (simp add: specsTasks_def)
qed

theorem preset_tasks_witness:
  "hasSpecEntry (disk sample_files) app_bundle
   \<and> thrown (generate (disk sample_files) app_bundle sample_config initial) = None
   \<and> (''spec:windows'', [''Chrome'', ''Firefox'', ''IE'', ''Edge'']) \<in> set specsTasks
   \<and> task_named ''app:spec:windows''
        (registered initial (generate (disk sample_files) app_bundle sample_config initial)) =
       [\<lparr>task_name = ''app:spec:windows'', task_deps = [''app:spec:compile''],
         task_action = Some (KarmaStart ''karma.conf.js'' [''Chrome'', ''Firefox'', ''IE'', ''Edge'']
                               ''.tmp/app.spec.js'' ''.tmp/app.spec.js.map'' None)\<rparr>]"
proof -
  have preset: "(''spec:windows'', [''Chrome'', ''Firefox'', ''IE'', ''Edge'']) \<in> set specsTasks"
    by (simp add: specsTasks_def)
  have names: "name app_bundle = ''app''"
    by (simp add: sample_defs)
  from preset_tasks [OF sample_probe(2) sample_completes preset, of initial]
  show ?thesis
    using sample_probe(2) sample_completes preset by (simp add: names)
qed

text \<open>
  Claim C2 as the specification states it fails on the sample bundle \<open>app\<close>: the table
  maps \<open>spec\<close> to \<open>PhantomJS\<close>, not to \<open>Headless\<close>, and the base task \<open>app:spec\<close> passes no
  \<open>singleRun\<close> to karma instead of \<open>singleRun = true\<close>.
\<close>

theorem preset_tasks_counterexample:
  "map_of specsTasks ''spec'' = Some [''PhantomJS'']
   \<and> map_of specsTasks ''spec'' \<noteq> Some [''Headless'']
   \<and> hasSpecEntry (disk sample_files) app_bundle
   \<and> map task_action (task_named ''app:spec''
        (registered initial (generate (disk sample_files) app_bundle sample_config initial))) =
       [Some (KarmaStart ''karma.conf.js'' [''PhantomJS''] ''.tmp/app.spec.js''
                ''.tmp/app.spec.js.map'' None)]"
  by code_simp

section \<open>The flags of the compile tasks\<close>

text \<open>
  Claim C3. In a call that is not left by a throw, the minify flag handed to
  \<open>code.compile\<close> by the task \<open><name>:code:compile\<close> (registered when \<open>index.ts\<close> exists)
  and by the task \<open><name>:spec:compile\<close> (registered when \<open>spec.ts\<close> exists) is the
  bundle's \<open>minify\<close> when that key is defined, otherwise the global \<open>minify\<close> when
  defined, otherwise \<open>true\<close>.
\<close>

theorem minify_flag:
  assumes "thrown (generate F b c st) = None"
  shows "(hasCodeEntry F b \<longrightarrow>
            map compile_minify (task_named (name b @ '':code:compile'')
              (registered st (generate F b c st))) = [Some (effective_minify b c)])
       \<and> (hasSpecEntry F b \<longrightarrow>
            map compile_minify (task_named (name b @ '':spec:compile'')
              (registered st (generate F b c st))) = [Some (effective_minify b c)])"
  by (auto simp add: registered_generate not_thrown [OF assms] not_thrown_known [OF assms]
        task_named_def if_only_if compile_minify_def effective_minify_def
        run_spec_tasks split del: if_split split: option.splits)

theorem minify_flag_witness:
  "thrown (generate (disk sample_files) app_bundle (sample_config\<lparr>minify := Some False\<rparr>) initial) = None
   \<and> hasCodeEntry (disk sample_files) app_bundle \<and> hasSpecEntry (disk sample_files) app_bundle
   \<and> map compile_minify (task_named ''app:code:compile''
        (registered initial (generate (disk sample_files) app_bundle
           (sample_config\<lparr>minify := Some False\<rparr>) initial))) = [Some False]
   \<and> map compile_minify (task_named ''app:spec:compile''
        (registered initial (generate (disk sample_files) app_bundle
           (sample_config\<lparr>minify := Some False\<rparr>) initial))) = [Some False]"
proof -
  have ok: "thrown (generate (disk sample_files) app_bundle
                (sample_config\<lparr>minify := Some False\<rparr>) initial) = None"
    by (simp add: thrown_generate sample_probe(1) known_dependencies_def lodash_values_def
          sample_defs)
  have eff: "effective_minify app_bundle (sample_config\<lparr>minify := Some False\<rparr>) = False"
    by (simp add: effective_minify_def sample_defs)
  have names: "name app_bundle = ''app''"
    by (simp add: sample_defs)
  from minify_flag [OF ok]
  show ?thesis
    using ok by (simp add: eff names sample_probe)
qed

text \<open>
  Claim C9. In a call that is not left by a throw, the task \<open><name>:spec:compile\<close> of a
  bundle with \<open>spec.ts\<close> hands \<open>code.compile\<close> the library flag \<open>false\<close>, whatever the
  bundle declares, and the task \<open><name>:code:compile\<close> of a bundle with \<open>index.ts\<close> hands
  it the bundle's own \<open>library\<close> value.
\<close>

theorem library_flag:
  assumes "thrown (generate F b c st) = None"
  shows "(hasSpecEntry F b \<longrightarrow>
            map compile_library (task_named (name b @ '':spec:compile'')
              (registered st (generate F b c st))) = [Some (Some False)])
       \<and> (hasCodeEntry F b \<longrightarrow>
            map compile_library (task_named (name b @ '':code:compile'')
              (registered st (generate F b c st))) = [Some (library b)])"
  by (auto simp add: registered_generate not_thrown [OF assms] not_thrown_known [OF assms]
        task_named_def if_only_if compile_library_def
        run_spec_tasks split del: if_split)

theorem library_flag_witness:
  "thrown (generate (disk sample_files) (app_bundle\<lparr>library := Some True\<rparr>) sample_config initial) = None
   \<and> hasSpecEntry (disk sample_files) (app_bundle\<lparr>library := Some True\<rparr>)
   \<and> hasCodeEntry (disk sample_files) (app_bundle\<lparr>library := Some True\<rparr>)
   \<and> map compile_library (task_named ''app:spec:compile''
        (registered initial (generate (disk sample_files) (app_bundle\<lparr>library := Some True\<rparr>)
           sample_config initial))) = [Some (Some False)]
   \<and> map compile_library (task_named ''app:code:compile''
        (registered initial (generate (disk sample_files) (app_bundle\<lparr>library := Some True\<rparr>)
           sample_config initial))) = [Some (Some True)]"
proof -
  have probe: "hasSpecEntry (disk sample_files) (app_bundle\<lparr>library := Some True\<rparr>)"
    "hasCodeEntry (disk sample_files) (app_bundle\<lparr>library := Some True\<rparr>)"
    by (simp_all add: hasSpecEntry_def hasCodeEntry_def disk_def rootOf_def sample_defs)
  have ok: "thrown (generate (disk sample_files) (app_bundle\<lparr>library := Some True\<rparr>)
                sample_config initial) = None"
    by (simp add: thrown_generate known_dependencies_def lodash_values_def sample_defs)
  have names: "name (app_bundle\<lparr>library := Some True\<rparr>) = ''app''"
    by (simp add: sample_defs)
  from library_flag [OF ok]
  show ?thesis
    using ok probe by (simp add: names)
qed

section \<open>The sources handed to the verify task\<close>

lemma verify_globs_roots:
  "non_spec_sources (rootOf b) @ concat (map (dependency_sources c) (lodash_values (dependencies b)))
     = concat (map non_spec_sources (verify_roots c b))"
proof -
  have "concat (map (dependency_sources c) ds) =
        concat (map non_spec_sources
          (concat (map (\<lambda>d. case find (\<lambda>x. name x = d) (bundles c) of
                               Some dep \<Rightarrow> [rootOf dep] | None \<Rightarrow> []) ds)))" for ds
    by (induction ds) (auto simp: dependency_sources_def split: option.splits)
  then show ?thesis
    by (simp add: verify_roots_def)
qed

lemma gulp_src_non_spec_sources:
  assumes "f \<in> set (gulp_src files (concat (map non_spec_sources rs)))"
  shows "f \<in> set files \<and>
         (\<exists>r\<in>set rs. glob_match (r @ ''**/*.ts'') f \<and> \<not> glob_match (r @ ''spec.ts'') f
            \<and> \<not> glob_match (r @ ''**/*.spec.ts'') f \<and> \<not> glob_match (r @ ''spec/**/*'') f)"
proof -
  let ?G = "concat (map non_spec_sources rs)"
  from assms have "f \<in> set files"
    and pos: "\<exists>g\<in>set ?G. \<not> negated g \<and> glob_match g f"
    and neg: "\<forall>g\<in>set ?G. negated g \<longrightarrow> \<not> glob_match (tl g) f"
    by (auto simp: gulp_src_def list_ex_iff)
  from pos obtain r where r: "r \<in> set rs" "glob_match (r @ ''**/*.ts'') f"
    by (auto simp: non_spec_sources_def negated_def)
  from r(1) neg have "\<not> glob_match (r @ ''spec.ts'') f"
    "\<not> glob_match (r @ ''**/*.spec.ts'') f" "\<not> glob_match (r @ ''spec/**/*'') f"
    by (auto simp: non_spec_sources_def negated_def)
  with r \<open>f \<in> set files\<close> show ?thesis by blast
qed

text \<open>
  Claim C4, as the code has it. For a bundle with \<open>index.ts\<close> whose call is not left by a
  throw, every declared dependency names a bundle of the configuration, and the globs
  handed to \<open>code.verify\<close> by the task \<open><name>:code:verify\<close> are those of the bundle's own
  non-spec \<open>.ts\<close> files followed, for each declared dependency in turn, by those of the
  non-spec \<open>.ts\<close> files of the bundle with that name; the dependencies of a dependency
  contribute no glob. Every file these globs select from a tree is a non-spec \<open>.ts\<close> file
  under the root of the bundle or of one of its direct dependencies: a file of any other
  bundle is read only when it also lies under one of these roots.
\<close>

theorem verify_sources:
  assumes "hasCodeEntry F b" and "thrown (generate F b c st) = None"
  shows "known_dependencies c b
       \<and> map task_action (task_named (name b @ '':code:verify'') (registered st (generate F b c st))) =
           [Some (CodeVerify (non_spec_sources (rootOf b)
              @ concat (map (dependency_sources c) (lodash_values (dependencies b)))))]
       \<and> (\<forall>files f.
             f \<in> set (gulp_src files (non_spec_sources (rootOf b)
                    @ concat (map (dependency_sources c) (lodash_values (dependencies b))))) \<longrightarrow>
             f \<in> set files \<and>
             (\<exists>r\<in>set (verify_roots c b).
                glob_match (r @ ''**/*.ts'') f \<and> \<not> glob_match (r @ ''spec.ts'') f
                \<and> \<not> glob_match (r @ ''**/*.spec.ts'') f \<and> \<not> glob_match (r @ ''spec/**/*'') f))"
proof -
  have task: "known_dependencies c b
       \<and> map task_action (task_named (name b @ '':code:verify'') (registered st (generate F b c st))) =
           [Some (CodeVerify (non_spec_sources (rootOf b)
              @ concat (map (dependency_sources c) (lodash_values (dependencies b)))))]"
    using assms(1)
    by (simp add: registered_generate not_thrown [OF assms(2)] not_thrown_known [OF assms(2)]
          task_named_def if_only_if run_spec_tasks split del: if_split)
  have files: "f \<in> set files \<and>
             (\<exists>r\<in>set (verify_roots c b).
                glob_match (r @ ''**/*.ts'') f \<and> \<not> glob_match (r @ ''spec.ts'') f
                \<and> \<not> glob_match (r @ ''**/*.spec.ts'') f \<and> \<not> glob_match (r @ ''spec/**/*'') f)"
    if "f \<in> set (gulp_src files (non_spec_sources (rootOf b)
                    @ concat (map (dependency_sources c) (lodash_values (dependencies b)))))"
    for files f
    using that unfolding verify_globs_roots by (rule gulp_src_non_spec_sources)
  from task files show ?thesis by blast
qed

text \<open>
  In the sample project \<open>app\<close> depends on \<open>core\<close> and \<open>core\<close> on \<open>base\<close>, with roots side
  by side: the verify task of \<open>app\<close> reads sources of \<open>app\<close> and \<open>core\<close> and not
  \<open>base/index.ts\<close>.
\<close>

theorem verify_sources_witness:
  "hasCodeEntry (disk sample_files) app_bundle
   \<and> thrown (generate (disk sample_files) app_bundle sample_config initial) = None
   \<and> dependencies app_bundle = Some [''core''] \<and> dependencies core_bundle = Some [''base'']
   \<and> verify_roots sample_config app_bundle = [''src/'', ''lib/'']
   \<and> map task_action (task_named ''app:code:verify''
        (registered initial (generate (disk sample_files) app_bundle sample_config initial))) =
       [Some (CodeVerify
          [''src/**/*.ts'', ''!src/spec.ts'', ''!src/**/*.spec.ts'', ''!src/spec/**/*'',
           ''lib/**/*.ts'', ''!lib/spec.ts'', ''!lib/**/*.spec.ts'', ''!lib/spec/**/*''])]
   \<and> ''src/index.ts'' \<in> set (gulp_src sample_files
         [''src/**/*.ts'', ''!src/spec.ts'', ''!src/**/*.spec.ts'', ''!src/spec/**/*'',
          ''lib/**/*.ts'', ''!lib/spec.ts'', ''!lib/**/*.spec.ts'', ''!lib/spec/**/*''])
   \<and> ''lib/util.ts'' \<in> set (gulp_src sample_files
         [''src/**/*.ts'', ''!src/spec.ts'', ''!src/**/*.spec.ts'', ''!src/spec/**/*'',
          ''lib/**/*.ts'', ''!lib/spec.ts'', ''!lib/**/*.spec.ts'', ''!lib/spec/**/*''])
   \<and> ''base/index.ts'' \<notin> set (gulp_src sample_files
         [''src/**/*.ts'', ''!src/spec.ts'', ''!src/**/*.spec.ts'', ''!src/spec/**/*'',
          ''lib/**/*.ts'', ''!lib/spec.ts'', ''!lib/**/*.spec.ts'', ''!lib/spec/**/*''])"
proof -
  have deps: "dependencies app_bundle = Some [''core'']" "dependencies core_bundle = Some [''base'']"
    by (simp_all add: sample_defs)
  have names: "name app_bundle = ''app''"
    by (simp add: sample_defs)
  have roots: "verify_roots sample_config app_bundle = [''src/'', ''lib/'']"
    by code_simp
  have globs: "non_spec_sources (rootOf app_bundle)
        @ concat (map (dependency_sources sample_config) (lodash_values (dependencies app_bundle))) =
      [''src/**/*.ts'', ''!src/spec.ts'', ''!src/**/*.spec.ts'', ''!src/spec/**/*'',
       ''lib/**/*.ts'', ''!lib/spec.ts'', ''!lib/**/*.spec.ts'', ''!lib/spec/**/*'']"
    by code_simp
  have read: "''src/index.ts'' \<in> set (gulp_src sample_files
         [''src/**/*.ts'', ''!src/spec.ts'', ''!src/**/*.spec.ts'', ''!src/spec/**/*'',
          ''lib/**/*.ts'', ''!lib/spec.ts'', ''!lib/**/*.spec.ts'', ''!lib/spec/**/*''])"
    "''lib/util.ts'' \<in> set (gulp_src sample_files
         [''src/**/*.ts'', ''!src/spec.ts'', ''!src/**/*.spec.ts'', ''!src/spec/**/*'',
          ''lib/**/*.ts'', ''!lib/spec.ts'', ''!lib/**/*.spec.ts'', ''!lib/spec/**/*''])"
    by code_simp+
  have outside: "\<not> glob_match (''src/'' @ ''**/*.ts'') ''base/index.ts''"
    "\<not> glob_match (''lib/'' @ ''**/*.ts'') ''base/index.ts''"
    by code_simp+
  note main = verify_sources [OF sample_probe(1) sample_completes, of initial,
      unfolded globs names roots]
  from main outside have "''base/index.ts'' \<notin> set (gulp_src sample_files
         [''src/**/*.ts'', ''!src/spec.ts'', ''!src/**/*.spec.ts'', ''!src/spec/**/*'',
          ''lib/**/*.ts'', ''!lib/spec.ts'', ''!lib/**/*.spec.ts'', ''!lib/spec/**/*''])"
    by auto
  with main show ?thesis
    using sample_probe(1) sample_completes deps roots read by simp
qed

text \<open>
  Claim C4 as the specification states it, with the files of a dependency's own
  dependencies never included, fails on the project with nested roots: \<open>base\<close> is a
  dependency of \<open>core\<close> only, and the verify task of \<open>app\<close> reads \<open>src/core/base/index.ts\<close>,
  which its own glob \<open>src/**/*.ts\<close> selects.
\<close>

theorem verify_sources_counterexample:
  "hasCodeEntry (disk nested_files) nested_app
   \<and> thrown (generate (disk nested_files) nested_app nested_config initial) = None
   \<and> dependencies nested_app = Some [''core''] \<and> dependencies nested_core = Some [''base'']
   \<and> dependencies nested_base = None
   \<and> rootOf nested_base = ''src/core/base/''
   \<and> map task_action (task_named ''app:code:verify''
        (registered initial (generate (disk nested_files) nested_app nested_config initial))) =
       [Some (CodeVerify
          [''src/**/*.ts'', ''!src/spec.ts'', ''!src/**/*.spec.ts'', ''!src/spec/**/*'',
           ''src/core/**/*.ts'', ''!src/core/spec.ts'', ''!src/core/**/*.spec.ts'',
           ''!src/core/spec/**/*''])]
   \<and> ''src/core/base/index.ts'' \<in> set (gulp_src nested_files
          [''src/**/*.ts'', ''!src/spec.ts'', ''!src/**/*.spec.ts'', ''!src/spec/**/*'',
           ''src/core/**/*.ts'', ''!src/core/spec.ts'', ''!src/core/**/*.spec.ts'',
           ''!src/core/spec/**/*''])"
  by code_simp

section \<open>A dependency that names no bundle\<close>

text \<open>
  Claim C6, on the sample project, where no bundle is named \<open>missing\<close>. The bundle
  \<open>docs\<close> depends on \<open>missing\<close> and has no \<open>index.ts\<close>: its call completes, and
  \<open>docs:preBuild\<close> is registered with the prerequisite \<open>missing:preBuild\<close>. The bundle
  \<open>broken\<close> depends on \<open>missing\<close> and has \<open>index.ts\<close>: its call is left by the \<open>TypeError\<close>
  of reading \<open>root\<close> of \<open>undefined\<close> in \<open>dependenciesCode\<close>, after four tasks were
  registered. Neither call fails with a fault that names the unknown dependency.
\<close>

theorem unknown_dependency:
  "\<not> known_dependencies sample_config docs_bundle
   \<and> thrown (generate (disk sample_files) docs_bundle sample_config initial) = None
   \<and> map task_deps (task_named ''docs:preBuild''
        (registered initial (generate (disk sample_files) docs_bundle sample_config initial)))
       = [[''missing:preBuild'']]
   \<and> \<not> known_dependencies sample_config broken_bundle
   \<and> thrown (generate (disk sample_files) broken_bundle sample_config initial)
       = Some (TypeError ''root'')
   \<and> map task_name
        (registered initial (generate (disk sample_files) broken_bundle sample_config initial))
       = [''broken:templates'', ''broken:images'', ''broken:assets'', ''broken:styles'']"
  by code_simp

theorem unknown_dependency_witness:
  "thrown (generate (disk sample_files) docs_bundle sample_config initial) = None
   \<and> thrown (generate (disk sample_files) broken_bundle sample_config initial)
       \<noteq> None"
  using unknown_dependency by simp

section \<open>The images handed to the pre-cache\<close>

text \<open>
  Claim C7, on the sample bundle \<open>app\<close> with the asset folder \<open>assets\<close>. The images stage
  is detected from the \<open>.svg\<close> files outside the asset folder, here \<open>src/a.svg\<close> alone. The
  globs handed to \<open>images.preCache\<close> are \<open>src/**/*.svg\<close> and \<open>src/assets/**/*/*.svg\<close>,
  neither of them negated, so the files they select include \<open>src/assets/logo.svg\<close>, a
  file inside the asset folder.
\<close>

theorem images_precache_globs:
  "findImages (disk sample_files) app_bundle = [''src/a.svg'']
   \<and> map task_action (task_named ''app:images''
        (registered initial (generate (disk sample_files) app_bundle sample_config initial))) =
       [Some (ImagesPreCache [''src/**/*.svg'', ''src/assets/**/*/*.svg''] ''app'')]
   \<and> gulp_src sample_files [''src/**/*.svg'', ''src/assets/**/*/*.svg''] =
       [''src/a.svg'', ''src/assets/logo.svg'']"
  by code_simp

theorem images_precache_globs_witness:
  "''src/assets/logo.svg'' \<notin> set (findImages (disk sample_files) app_bundle)
   \<and> ''src/assets/logo.svg'' \<in> set (gulp_src sample_files
         [''src/**/*.svg'', ''src/assets/**/*/*.svg''])"
  using images_precache_globs by simp

section \<open>The registry of style tasks\<close>

lemma set_lodash_intersection: "set (lodash_intersection xs ys) = set xs \<inter> set ys"
  by (induction xs ys rule: lodash_intersection.induct) auto

lemma distinct_lodash_intersection: "distinct (lodash_intersection xs ys)"
  by (induction xs ys rule: lodash_intersection.induct) (auto simp: set_lodash_intersection)

lemma subseq_lodash_intersection: "subseq (lodash_intersection xs ys) xs"
proof (induction xs ys rule: lodash_intersection.induct)
  case (1 ys)
  then show ?case by simp
next
  case (2 x xs ys)
  show ?case
  proof (cases "x \<in> set ys")
    case True
    with 2 have "subseq (lodash_intersection (filter (\<lambda>y. y \<noteq> x) xs) ys) (filter (\<lambda>y. y \<noteq> x) xs)"
      by simp
    also have "subseq (filter (\<lambda>y. y \<noteq> x) xs) xs"
      by simp
    finally show ?thesis
      using True by simp
  next
    case False
    with 2 show ?thesis by (auto intro: list_emb.intros)
  qed
qed

lemma styleTasks_generate_each:
  "x \<in> set (styleTasks st) \<Longrightarrow> x \<in> set (styleTasks (state_of (generate_each F c bs st)))"
proof (induction bs arbitrary: st)
  case Nil
  then show ?case by simp
next
  case (Cons b bs)
  have grown: "x \<in> set (styleTasks (state_of (generate F b c st)))"
    using Cons.prems by (simp add: styleTasks_generate)
  show ?case
  proof (cases "generate F b c st")
    case (Completed st')
    with grown Cons.IH [of st'] show ?thesis by simp
  next
    case (Thrown e st')
    with grown show ?thesis by simp
  qed
qed

lemma completed_state_of: "thrown out = None \<Longrightarrow> out = Completed (state_of out)"
  by (cases out) simp_all

text \<open>
  Claim C5. For a bundle \<open>B\<close> with \<open>index.scss\<close> the call registers one task
  \<open>B:styles\<close>. Its prerequisites are \<open>_.intersection\<close> of the registry \<open>styleTasks\<close> with
  the ids \<open><dep>:styles\<close> of the declared dependencies: as a set the intersection of the
  two, each id once, in the order of the registry (a subsequence of it) and not in the
  order of the declaration. In particular, when an earlier call for a bundle \<open>A\<close> with
  \<open>index.scss\<close> completed and \<open>B\<close> declares \<open>A\<close>, then \<open>A:styles\<close> is a prerequisite of
  \<open>B:styles\<close>, whatever calls came in between; and a dependency whose styles id is not in
  the registry contributes nothing.
\<close>

theorem styles_prerequisites:
  assumes "hasStyleEntry F B"
  shows "\<exists>t. task_named (name B @ '':styles'') (registered st (generate F B c st)) = [t]
           \<and> task_deps t = lodash_intersection (styleTasks st)
                              (map (\<lambda>d. d @ '':styles'') (lodash_values (dependencies B)))
           \<and> set (task_deps t) =
               set (styleTasks st) \<inter> (\<lambda>d. d @ '':styles'') ` set (lodash_values (dependencies B))
           \<and> distinct (task_deps t)
           \<and> subseq (task_deps t) (styleTasks st)
           \<and> (\<forall>A st0 st1 mid.
                 hasStyleEntry F A \<and> generate F A c st0 = Completed st1
                 \<and> generate_each F c mid st1 = Completed st
                 \<and> name A \<in> set (lodash_values (dependencies B))
                 \<longrightarrow> name A @ '':styles'' \<in> set (task_deps t))
           \<and> (\<forall>d. d @ '':styles'' \<notin> set (styleTasks st) \<longrightarrow> d @ '':styles'' \<notin> set (task_deps t))"
proof -
  let ?deps = "lodash_intersection (styleTasks st)
                 (map (\<lambda>d. d @ '':styles'') (lodash_values (dependencies B)))"
  let ?t = "\<lparr>task_name = name B @ '':styles'', task_deps = ?deps,
             task_action = Some (StylesCompile (rootOf B @ ''index.scss'')
                             (rootOf B @ ''**/_*.scss'') (''dist/'' @ name B @ ''/css/'') B)\<rparr>"
  have task: "task_named (name B @ '':styles'') (registered st (generate F B c st)) = [?t]"
    using assms
    by (simp add: registered_generate task_named_def if_only_if if_not_only_if
          run_spec_tasks lodash_map_def split del: if_split)
  have earlier: "name A @ '':styles'' \<in> set ?deps"
    if "hasStyleEntry F A" "generate F A c st0 = Completed st1"
      "generate_each F c mid st1 = Completed st"
      "name A \<in> set (lodash_values (dependencies B))" for A st0 st1 mid
  proof -
    from that(1,2) styleTasks_generate [of F A c st0]
    have "name A @ '':styles'' \<in> set (styleTasks st1)"
      by simp
    from styleTasks_generate_each [OF this, of F c mid] that(3)
    have "name A @ '':styles'' \<in> set (styleTasks st)"
      by simp
    with that(4) show ?thesis
      by (simp add: set_lodash_intersection)
  qed
  have "task_deps ?t = ?deps" by simp
  moreover have "set ?deps =
      set (styleTasks st) \<inter> (\<lambda>d. d @ '':styles'') ` set (lodash_values (dependencies B))"
    by (simp add: set_lodash_intersection)
  moreover have "distinct ?deps"
    by (rule distinct_lodash_intersection)
  moreover have "subseq ?deps (styleTasks st)"
    by (rule subseq_lodash_intersection)
  moreover have "\<forall>d. d @ '':styles'' \<notin> set (styleTasks st) \<longrightarrow> d @ '':styles'' \<notin> set ?deps"
    by (simp add: set_lodash_intersection)
  ultimately show ?thesis
    using task earlier by (intro exI [of _ ?t]) (simp; blast)
qed


text \<open>
  In the sample project \<open>site\<close> declares \<open>core\<close> before \<open>base\<close>, and the registry holds
  \<open>base:styles\<close> before \<open>core:styles\<close>: the prerequisites come in the registry's order.
\<close>

theorem styles_prerequisites_witness:
  "hasStyleEntry (disk sample_files) site_bundle
   \<and> hasStyleEntry (disk sample_files) core_bundle
   \<and> generate (disk sample_files) core_bundle sample_config after_base = Completed after_core
   \<and> generate_each (disk sample_files) sample_config [app_bundle] after_core = Completed after_app
   \<and> dependencies site_bundle = Some [''core'', ''base'']
   \<and> name core_bundle \<in> set (lodash_values (dependencies site_bundle))
   \<and> styleTasks after_app = [''base:styles'', ''core:styles'', ''app:styles'']
   \<and> map task_deps (task_named ''site:styles''
        (registered after_app (generate (disk sample_files) site_bundle sample_config after_app)))
       = [[''base:styles'', ''core:styles'']]"
proof -
  have style: "hasStyleEntry (disk sample_files) site_bundle"
    "hasStyleEntry (disk sample_files) core_bundle"
    by code_simp+
  have core: "generate (disk sample_files) core_bundle sample_config after_base
                = Completed after_core"
    unfolding after_core_def
    by (rule completed_state_of) code_simp
  have app: "generate_each (disk sample_files) sample_config [app_bundle] after_core
               = Completed after_app"
    unfolding after_app_def
    by (rule completed_state_of) code_simp
  have deps: "dependencies site_bundle = Some [''core'', ''base'']"
    "name core_bundle \<in> set (lodash_values (dependencies site_bundle))"
    "name site_bundle = ''site''"
    by (simp_all add: lodash_values_def sample_defs)
  have registry: "styleTasks after_app = [''base:styles'', ''core:styles'', ''app:styles'']"
    by code_simp
  have meet: "lodash_intersection [''base:styles'', ''core:styles'', ''app:styles'']
                [''core:styles'', ''base:styles''] = [''base:styles'', ''core:styles'']"
    by code_simp
  from styles_prerequisites [OF style(1), of after_app sample_config]
  obtain t where
    "task_named ''site:styles''
       (registered after_app (generate (disk sample_files) site_bundle sample_config after_app)) = [t]"
    "task_deps t = [''base:styles'', ''core:styles'']"
    by (auto simp: deps registry lodash_values_def meet)
  then show ?thesis
    using style core app deps registry by simp
qed

lemma styles_tasks_registered:
  "filter (\<lambda>t. styles_bundle t \<noteq> None) (registered st (generate F b c st)) =
     only_if (hasStyleEntry F b)
       [\<lparr>task_name = name b @ '':styles'',
         task_deps = lodash_intersection (styleTasks st)
                       (map (\<lambda>d. d @ '':styles'') (lodash_values (dependencies b))),
         task_action = Some (StylesCompile (rootOf b @ ''index.scss'')
                         (rootOf b @ ''**/_*.scss'') (''dist/'' @ name b @ ''/css/'') b)\<rparr>]"
  by (simp add: registered_generate if_only_if if_not_only_if styles_bundle_def
        run_spec_tasks lodash_map_def split del: if_split)

lemma registered_own_id_left_out:
  assumes "name b @ '':styles'' \<notin> set (styleTasks st)"
    and "t \<in> set (registered st (generate F b c st))"
  shows "own_id_left_out t"
proof (cases "styles_bundle t")
  case None
  then show ?thesis by (simp add: own_id_left_out_def)
next
  case (Some b')
  with assms(2) have "t \<in> set (filter (\<lambda>t. styles_bundle t \<noteq> None)
                                (registered st (generate F b c st)))"
    by simp
  then have "t = \<lparr>task_name = name b @ '':styles'',
         task_deps = lodash_intersection (styleTasks st)
                       (map (\<lambda>d. d @ '':styles'') (lodash_values (dependencies b))),
         task_action = Some (StylesCompile (rootOf b @ ''index.scss'')
                         (rootOf b @ ''**/_*.scss'') (''dist/'' @ name b @ ''/css/'') b)\<rparr>"
    unfolding styles_tasks_registered by (simp add: set_only_if)
  then show ?thesis
    using assms(1)
    by (simp add: own_id_left_out_def styles_bundle_def set_lodash_intersection)
qed

lemma generate_each_own_id_left_out:
  assumes "distinct (map name bs)"
    and "\<forall>b\<in>set bs. name b @ '':styles'' \<notin> set (styleTasks st)"
    and "\<forall>t\<in>set (gulp_tasks st). own_id_left_out t"
  shows "\<forall>t\<in>set (gulp_tasks (state_of (generate_each F c bs st))). own_id_left_out t"
  using assms
proof (induction bs arbitrary: st)
  case Nil
  then show ?case by simp
next
  case (Cons b bs)
  let ?out = "generate F b c st"
  have tasks: "\<forall>t\<in>set (gulp_tasks (state_of ?out)). own_id_left_out t"
    using Cons.prems(2,3) registered_own_id_left_out [of b st _ F c]
    by (auto simp: gulp_tasks_generate)
  have registry: "\<forall>b'\<in>set bs. name b' @ '':styles'' \<notin> set (styleTasks (state_of ?out))"
  proof
    fix b'
    assume "b' \<in> set bs"
    with Cons.prems(1) have "name b' \<noteq> name b"
      by (auto simp: image_iff)
    with \<open>b' \<in> set bs\<close> Cons.prems(2)
    show "name b' @ '':styles'' \<notin> set (styleTasks (state_of ?out))"
      by (simp add: styleTasks_generate)
  qed
  show ?case
  proof (cases ?out)
    case (Completed st')
    with tasks registry Cons.prems(1) Cons.IH [of st'] show ?thesis
      by simp
  next
    case (Thrown e st')
    with tasks show ?thesis by simp
  qed
qed

text \<open>
  Claim C10. In a run of \<open>generate\<close> over bundles with distinct names, started from the
  state of the freshly loaded module, every styles task is the task \<open><name>:styles\<close> of
  the bundle it compiles and does not have its own id among its prerequisites: when its
  prerequisites are computed the registry holds only the ids of the bundles before it.
\<close>

theorem styles_task_not_own_prerequisite:
  assumes "distinct (map name bs)"
  shows "\<forall>t\<in>set (gulp_tasks (state_of (generate_each F c bs initial))).
           \<forall>b. styles_bundle t = Some b \<longrightarrow>
             task_name t = name b @ '':styles'' \<and> task_name t \<notin> set (task_deps t)"
proof -
  have "\<forall>t\<in>set (gulp_tasks (state_of (generate_each F c bs initial))). own_id_left_out t"
    using assms by (intro generate_each_own_id_left_out) (simp_all add: initial_def)
  then show ?thesis
    by (auto simp: own_id_left_out_def)
qed

theorem styles_task_not_own_prerequisite_witness:
  "distinct (map name [base_bundle, core_bundle, app_bundle, site_bundle])
   \<and> map task_name (filter (\<lambda>t. styles_bundle t \<noteq> None)
        (gulp_tasks (state_of (generate_each (disk sample_files) sample_config
           [base_bundle, core_bundle, app_bundle, site_bundle] initial)))) =
       [''base:styles'', ''core:styles'', ''app:styles'', ''site:styles'']
   \<and> list_all (\<lambda>t. styles_bundle t = None \<or> task_name t \<notin> set (task_deps t))
        (gulp_tasks (state_of (generate_each (disk sample_files) sample_config
           [base_bundle, core_bundle, app_bundle, site_bundle] initial)))"
proof -
  have names: "distinct (map name [base_bundle, core_bundle, app_bundle, site_bundle])"
    by (simp add: sample_defs)
  have styles: "map task_name (filter (\<lambda>t. styles_bundle t \<noteq> None)
        (gulp_tasks (state_of (generate_each (disk sample_files) sample_config
           [base_bundle, core_bundle, app_bundle, site_bundle] initial)))) =
       [''base:styles'', ''core:styles'', ''app:styles'', ''site:styles'']"
    by code_simp
  from styles_task_not_own_prerequisite [OF names, of "disk sample_files" sample_config]
  have "list_all (\<lambda>t. styles_bundle t = None \<or> task_name t \<notin> set (task_deps t))
        (gulp_tasks (state_of (generate_each (disk sample_files) sample_config
           [base_bundle, core_bundle, app_bundle, site_bundle] initial)))"
    unfolding list_all_iff by fastforce
  with names styles show ?thesis by simp
qed

end
